theory Spec2Isabelle
  imports Complex_Main "HOL-Library.Log_Nat"
begin

section \<open>Grid constants and cells\<close>

text \<open>
  The constants of \<^verbatim>\<open>GameConfig\<close> that the simulation reads. Python's \<^verbatim>\<open>//\<close> on
  positive integers is \<open>div\<close>.
\<close>

type_synonym cell = "int \<times> int"

definition GAME_AREA_WIDTH :: int where "GAME_AREA_WIDTH = 700"
definition GAME_AREA_HEIGHT :: int where "GAME_AREA_HEIGHT = 540"
definition GRID_SIZE :: int where "GRID_SIZE = 20"
definition GRID_WIDTH :: int where "GRID_WIDTH = GAME_AREA_WIDTH div GRID_SIZE"
definition GRID_HEIGHT :: int where "GRID_HEIGHT = GAME_AREA_HEIGHT div GRID_SIZE"

text \<open>Errors that the modelled Python can raise.\<close>

datatype py_error = IndexError | AttributeError

section \<open>Snake\<close>

text \<open>
  The fields of class \<^verbatim>\<open>Snake\<close> that the simulation reads. The animation counters
  (\<^verbatim>\<open>segment_animations\<close>, \<^verbatim>\<open>head_glow_intensity\<close>, \<^verbatim>\<open>body_pulse_offset\<close>) are only
  read by \<^verbatim>\<open>draw\<close> and are left out. Calls to \<^verbatim>\<open>audio_manager.play_sound\<close> are
  returned as the list of sound names requested.
\<close>

record Snake =
  positions :: "cell list"
  direction :: cell
  grow_pending :: bool

definition Snake_init :: Snake where
  "Snake_init =
     (let start_x = GRID_WIDTH div 2;
          start_y = GRID_HEIGHT div 2
      in \<lparr>positions = [(start_x, start_y)], direction = (1, 0), grow_pending = False\<rparr>)"

definition move :: "Snake \<Rightarrow> py_error + Snake" where
  "move s =
     (case positions s of
        [] \<Rightarrow> Inl IndexError
      | (head_x, head_y) # rest \<Rightarrow>
          (let new_head = (head_x + fst (direction s), head_y + snd (direction s));
               inserted = new_head # positions s
           in if \<not> grow_pending s
              then Inr (s\<lparr>positions := butlast inserted\<rparr>)
              else Inr (s\<lparr>positions := inserted, grow_pending := False\<rparr>)))"

definition change_direction :: "Snake \<Rightarrow> cell \<Rightarrow> Snake \<times> string list" where
  "change_direction s new_direction =
     (if (fst new_direction * (- 1), snd new_direction * (- 1)) \<noteq> direction s
      then (s\<lparr>direction := new_direction\<rparr>,
            if new_direction \<noteq> direction s then [''turn''] else [])
      else (s, []))"

definition check_collision :: "Snake \<Rightarrow> py_error + bool" where
  "check_collision s =
     (case positions s of
        [] \<Rightarrow> Inl IndexError
      | (head_x, head_y) # rest \<Rightarrow>
          if head_x < 0 \<or> head_x \<ge> GRID_WIDTH \<or> head_y < 0 \<or> head_y \<ge> GRID_HEIGHT
          then Inr True
          else Inr ((head_x, head_y) \<in> set rest))"

definition eat_food :: "Snake \<Rightarrow> Snake \<times> string list" where
  "eat_food s = (s\<lparr>grow_pending := True\<rparr>, [''eat''])"

section \<open>Food\<close>

text \<open>
  \<^verbatim>\<open>random.randint(lo, hi)\<close> is library code; it is modelled by its contract (an
  integer \<open>N\<close> with \<open>lo \<le> N \<le> hi\<close>, every such value possible) applied to a raw
  draw \<open>r\<close> that the caller supplies. A position takes two draws.
\<close>

definition randint :: "int \<Rightarrow> int \<Rightarrow> nat \<Rightarrow> int" where
  "randint lo hi r = lo + int (r mod nat (hi - lo + 1))"

record Food =
  position :: cell

definition generate_position :: "nat \<times> nat \<Rightarrow> cell" where
  "generate_position r =
     (randint 0 (GRID_WIDTH - 1) (fst r), randint 0 (GRID_HEIGHT - 1) (snd r))"

definition Food_init :: "nat \<times> nat \<Rightarrow> Food" where
  "Food_init r = \<lparr>position = generate_position r\<rparr>"

text \<open>
  The loop of \<^verbatim>\<open>Food.respawn\<close>; \<open>rnd attempts\<close> is the pair of raw draws of the
  sample taken when the counter has the value \<open>attempts\<close>. The position is assigned
  only inside the \<^verbatim>\<open>if\<close>; when the loop ends with \<open>attempts = 100\<close> nothing was assigned.
\<close>

function respawn_loop :: "(nat \<Rightarrow> nat \<times> nat) \<Rightarrow> cell list \<Rightarrow> nat \<Rightarrow> cell \<Rightarrow> cell" where
  "respawn_loop rnd snake_positions attempts pos =
     (if attempts < 100
      then (let new_position = generate_position (rnd attempts)
            in if new_position \<notin> set snake_positions
               then new_position
               else respawn_loop rnd snake_positions (attempts + 1) pos)
      else pos)"
  by pat_completeness auto
termination
  by (relation "measure (\<lambda>(rnd, snake_positions, attempts, pos). 100 - attempts)") auto

declare respawn_loop.simps [simp del]

definition respawn :: "Food \<Rightarrow> cell list \<Rightarrow> (nat \<Rightarrow> nat \<times> nat) \<Rightarrow> Food" where
  "respawn f snake_positions rnd = f\<lparr>position := respawn_loop rnd snake_positions 0 (position f)\<rparr>"

section \<open>Difficulty\<close>

text \<open>
  The multipliers are the floats 1.0, 1.5 and 2.0. A float is modelled by the rational
  number it denotes; each of the three is a dyadic rational and so denotes itself.
\<close>

record DifficultyConfig =
  name :: string
  speed :: int
  multiplier :: rat
  color :: "nat \<times> nat \<times> nat"

definition EASY_COLOR :: "nat \<times> nat \<times> nat" where "EASY_COLOR = (50, 255, 50)"
definition MEDIUM_COLOR :: "nat \<times> nat \<times> nat" where "MEDIUM_COLOR = (255, 200, 50)"
definition HARD_COLOR :: "nat \<times> nat \<times> nat" where "HARD_COLOR = (255, 80, 80)"

definition DIFFICULTIES :: "string \<rightharpoonup> DifficultyConfig" where
  "DIFFICULTIES =
     [''EASY'' \<mapsto> \<lparr>name = ''EASY'', speed = 8, multiplier = 1, color = EASY_COLOR\<rparr>,
      ''MEDIUM'' \<mapsto> \<lparr>name = ''MEDIUM'', speed = 12, multiplier = 3 / 2, color = MEDIUM_COLOR\<rparr>,
      ''HARD'' \<mapsto> \<lparr>name = ''HARD'', speed = 18, multiplier = 2, color = HARD_COLOR\<rparr>]"

definition get_config :: "string \<Rightarrow> DifficultyConfig" where
  "get_config difficulty =
     (case DIFFICULTIES difficulty of
        Some c \<Rightarrow> c
      | None \<Rightarrow> \<lparr>name = ''MEDIUM'', speed = 12, multiplier = 3 / 2, color = MEDIUM_COLOR\<rparr>)"

text \<open>Python's \<^verbatim>\<open>int(x)\<close> on a float truncates towards zero.\<close>

definition py_int :: "rat \<Rightarrow> int" where
  "py_int x = (if 0 \<le> x then \<lfloor>x\<rfloor> else \<lceil>x\<rceil>)"

section \<open>Float arithmetic\<close>

text \<open>
  Python's floats are IEEE 754 doubles: 53 significant bits, results rounded to the
  nearest double, ties to the even significand. \<open>to_double x\<close> is that rounding of a
  rational: with \<open>e = \<lfloor>log\<^sub>2 \<bar>x\<bar>\<rfloor>\<close> the doubles around \<open>x\<close> are the multiples of
  \<open>2 powi (e - 52)\<close>. \<open>log2_floor\<close> computes \<open>e\<close> from the bit lengths of numerator and
  denominator. The exponent range of doubles is left out: Python raises
  \<^verbatim>\<open>OverflowError\<close> when an integer beyond about \<open>1.8e308\<close> is converted.
\<close>

definition round_half_even :: "rat \<Rightarrow> int" where
  "round_half_even q =
     (let f = \<lfloor>q\<rfloor>; r = q - of_int f
      in if r < 1 / 2 then f
         else if r > 1 / 2 then f + 1
         else if even f then f else f + 1)"

definition log2_floor :: "rat \<Rightarrow> int" where
  "log2_floor x =
     (let (p, q) = quotient_of \<bar>x\<bar>;
          d = bitlen p - bitlen q
      in if 2 powi d \<le> \<bar>x\<bar> then d else d - 1)"

definition to_double :: "rat \<Rightarrow> rat" where
  "to_double x =
     (if x = 0 then 0
      else (let e = log2_floor x;
                ulp = 2 powi (e - 52)
            in of_int (round_half_even (x / ulp)) * ulp))"

text \<open>\<^verbatim>\<open>n * x\<close> for an integer \<open>n\<close> and a float \<open>x\<close>: the integer is converted to
  a float, then the two floats are multiplied.\<close>

definition float_of_int :: "int \<Rightarrow> rat" where
  "float_of_int n = to_double (of_int n)"

definition float_mul :: "rat \<Rightarrow> rat \<Rightarrow> rat" where
  "float_mul a b = to_double (a * b)"

section \<open>ScoreManager\<close>

text \<open>
  An entry is the dictionary with the keys \<^verbatim>\<open>score\<close>, \<^verbatim>\<open>player\<close> and \<^verbatim>\<open>date\<close>;
  Python compares two of them by value. The table is the dictionary from difficulty
  names to lists. Reading and writing the file are left out; the formatted time of
  \<^verbatim>\<open>datetime.now()\<close> is the parameter \<open>now\<close>.
\<close>

record entry =
  entry_score :: int
  player :: string
  date :: string

type_synonym scores = "string \<rightharpoonup> entry list"

definition empty_scores :: scores where
  "empty_scores = [''EASY'' \<mapsto> [], ''MEDIUM'' \<mapsto> [], ''HARD'' \<mapsto> []]"

text \<open>
  \<^verbatim>\<open>list.sort(key=..., reverse=True)\<close> is a stable sort in descending key order:
  entries with equal keys keep their order. On integer keys that is the stable
  ascending sort on the negated key.
\<close>

definition sort_reverse :: "entry list \<Rightarrow> entry list" where
  "sort_reverse xs = sort_key (\<lambda>x. - entry_score x) xs"

text \<open>The loop that looks the new entry up: the first index holding an equal entry.\<close>

fun rank_loop :: "entry list \<Rightarrow> entry \<Rightarrow> nat \<Rightarrow> nat option" where
  "rank_loop [] e i = None"
| "rank_loop (score_entry # rest) e i =
     (if score_entry = e then Some (i + 1) else rank_loop rest e (i + 1))"

definition add_score :: "scores \<Rightarrow> string \<Rightarrow> int \<Rightarrow> string \<Rightarrow> string \<Rightarrow> scores \<times> nat" where
  "add_score scs difficulty sc pl now =
     (let e = \<lparr>entry_score = sc, player = pl, date = now\<rparr>;
          scs1 = (if difficulty \<notin> dom scs then scs(difficulty \<mapsto> []) else scs);
          appended = (case scs1 difficulty of Some l \<Rightarrow> l | None \<Rightarrow> []) @ [e];
          sorted_list = sort_reverse appended;
          kept = take 10 sorted_list;
          scs2 = scs1(difficulty \<mapsto> kept)
      in (scs2, case rank_loop kept e 0 of Some r \<Rightarrow> r | None \<Rightarrow> length kept))"

definition get_high_score :: "scores \<Rightarrow> string \<Rightarrow> int" where
  "get_high_score scs difficulty =
     (case (case scs difficulty of Some l \<Rightarrow> l | None \<Rightarrow> []) of
        [] \<Rightarrow> 0
      | e # rest \<Rightarrow> entry_score e)"

definition is_high_score :: "scores \<Rightarrow> string \<Rightarrow> int \<Rightarrow> bool" where
  "is_high_score scs difficulty sc =
     (let l = (case scs difficulty of Some l \<Rightarrow> l | None \<Rightarrow> [])
      in length l < 10 \<or> (l \<noteq> [] \<and> sc > entry_score (last l)))"

section \<open>SnakeGame\<close>

text \<open>
  The controller's state: the fields of class \<^verbatim>\<open>SnakeGame\<close> that the game logic reads
  or writes. Rendering, particles, fonts and buttons are left out. \<open>play_sound_calls\<close>
  records, in order, the names passed to \<^verbatim>\<open>audio_manager.play_sound\<close>, and
  \<open>audio_enabled\<close> is the audio manager's flag.
\<close>

datatype GameState = MENU | DIFFICULTY_SELECT | PLAYING | GAME_OVER | LEADERBOARD

datatype key =
    K_UP | K_DOWN | K_LEFT | K_RIGHT
  | K_w | K_a | K_s | K_d
  | K_l | K_m | K_1 | K_2 | K_3
  | K_SPACE | K_RETURN | K_ESCAPE | K_OTHER

datatype event = QUIT | KEYDOWN key

record SnakeGame =
  state :: GameState
  current_difficulty :: string
  snake :: "Snake option"
  food :: "Food option"
  score :: int
  score_manager :: scores
  leaderboard_difficulty :: string
  audio_enabled :: bool
  play_sound_calls :: "string list"

definition SnakeGame_init :: "scores \<Rightarrow> SnakeGame" where
  "SnakeGame_init scs =
     \<lparr>state = MENU, current_difficulty = ''MEDIUM'', snake = None, food = None, score = 0,
      score_manager = scs, leaderboard_difficulty = ''MEDIUM'', audio_enabled = True,
      play_sound_calls = []\<rparr>"

definition play_sound :: "SnakeGame \<Rightarrow> string list \<Rightarrow> SnakeGame" where
  "play_sound g names = g\<lparr>play_sound_calls := play_sound_calls g @ names\<rparr>"

definition start_new_game :: "SnakeGame \<Rightarrow> nat \<times> nat \<Rightarrow> SnakeGame" where
  "start_new_game g r =
     play_sound
       (g\<lparr>snake := Some Snake_init, food := Some (Food_init r), score := 0, state := PLAYING\<rparr>)
       [''game_start'']"

definition select_difficulty :: "SnakeGame \<Rightarrow> string \<Rightarrow> SnakeGame" where
  "select_difficulty g difficulty = g\<lparr>current_difficulty := difficulty\<rparr>"

definition toggle_audio :: "SnakeGame \<Rightarrow> SnakeGame" where
  "toggle_audio g = g\<lparr>audio_enabled := \<not> audio_enabled g\<rparr>"

definition snake_change_direction :: "SnakeGame \<Rightarrow> cell \<Rightarrow> py_error + bool \<times> SnakeGame" where
  "snake_change_direction g new_direction =
     (case snake g of
        None \<Rightarrow> Inl AttributeError
      | Some s \<Rightarrow>
          (let (s', names) = change_direction s new_direction
           in Inr (True, play_sound (g\<lparr>snake := Some s'\<rparr>) names)))"

text \<open>
  \<^verbatim>\<open>_handle_keyboard_input\<close>: the result is the returned flag (false asks the main
  loop to stop) and the new state. \<open>r\<close> is the pair of raw draws used if the key starts
  a new game.
\<close>

definition handle_keyboard_input ::
    "SnakeGame \<Rightarrow> key \<Rightarrow> nat \<times> nat \<Rightarrow> py_error + bool \<times> SnakeGame" where
  "handle_keyboard_input g k r =
     (case state g of
        MENU \<Rightarrow>
          if k = K_SPACE \<or> k = K_RETURN then Inr (True, g\<lparr>state := DIFFICULTY_SELECT\<rparr>)
          else if k = K_l then Inr (True, g\<lparr>state := LEADERBOARD\<rparr>)
          else if k = K_ESCAPE then Inr (False, g)
          else if k = K_m then Inr (True, toggle_audio g)
          else Inr (True, g)
      | DIFFICULTY_SELECT \<Rightarrow>
          if k = K_1 then Inr (True, select_difficulty g ''EASY'')
          else if k = K_2 then Inr (True, select_difficulty g ''MEDIUM'')
          else if k = K_3 then Inr (True, select_difficulty g ''HARD'')
          else if k = K_SPACE \<or> k = K_RETURN then Inr (True, start_new_game g r)
          else if k = K_ESCAPE then Inr (True, g\<lparr>state := MENU\<rparr>)
          else Inr (True, g)
      | PLAYING \<Rightarrow>
          if k \<in> set [K_UP, K_w] then snake_change_direction g (0, - 1)
          else if k \<in> set [K_DOWN, K_s] then snake_change_direction g (0, 1)
          else if k \<in> set [K_LEFT, K_a] then snake_change_direction g (- 1, 0)
          else if k \<in> set [K_RIGHT, K_d] then snake_change_direction g (1, 0)
          else if k = K_ESCAPE then Inr (True, g\<lparr>state := MENU\<rparr>)
          else if k = K_m then Inr (True, toggle_audio g)
          else Inr (True, g)
      | GAME_OVER \<Rightarrow>
          if k = K_SPACE \<or> k = K_RETURN then Inr (True, start_new_game g r)
          else if k = K_d then Inr (True, g\<lparr>state := DIFFICULTY_SELECT\<rparr>)
          else if k = K_l then Inr (True, g\<lparr>state := LEADERBOARD\<rparr>)
          else if k = K_ESCAPE then Inr (True, g\<lparr>state := MENU\<rparr>)
          else if k = K_m then Inr (True, toggle_audio g)
          else Inr (True, g)
      | LEADERBOARD \<Rightarrow>
          if k = K_ESCAPE then Inr (True, g\<lparr>state := MENU\<rparr>)
          else if k = K_1 then Inr (True, g\<lparr>leaderboard_difficulty := ''EASY''\<rparr>)
          else if k = K_2 then Inr (True, g\<lparr>leaderboard_difficulty := ''MEDIUM''\<rparr>)
          else if k = K_3 then Inr (True, g\<lparr>leaderboard_difficulty := ''HARD''\<rparr>)
          else Inr (True, g))"

text \<open>
  The event loop of \<^verbatim>\<open>_handle_events\<close> over the keyboard and quit events of one
  frame, in the order the queue delivers them. Mouse events act only through buttons,
  and no button is active while playing.
\<close>

fun handle_events :: "SnakeGame \<Rightarrow> event list \<Rightarrow> nat \<times> nat \<Rightarrow> py_error + bool \<times> SnakeGame" where
  "handle_events g [] r = Inr (True, g)"
| "handle_events g (QUIT # evs) r = Inr (False, g)"
| "handle_events g (KEYDOWN k # evs) r =
     (case handle_keyboard_input g k r of
        Inl e \<Rightarrow> Inl e
      | Inr (continue, g') \<Rightarrow> if \<not> continue then Inr (False, g') else handle_events g' evs r)"

text \<open>The score shown and stored at game over: \<^verbatim>\<open>int(self.score * config.multiplier)\<close>.\<close>

definition final_score :: "SnakeGame \<Rightarrow> int" where
  "final_score g =
     (let config = get_config (current_difficulty g)
      in py_int (float_mul (float_of_int (score g)) (multiplier config)))"

definition handle_game_over :: "SnakeGame \<Rightarrow> string \<Rightarrow> SnakeGame" where
  "handle_game_over g now =
     (let g1 = g\<lparr>state := GAME_OVER\<rparr>;
          fs = final_score g1
      in if is_high_score (score_manager g1) (current_difficulty g1) fs
         then play_sound
                (g1\<lparr>score_manager :=
                      fst (add_score (score_manager g1) (current_difficulty g1) fs ''Player'' now)\<rparr>)
                [''high_score'']
         else play_sound g1 [''game_over''])"

definition handle_food_eaten :: "SnakeGame \<Rightarrow> (nat \<Rightarrow> nat \<times> nat) \<Rightarrow> py_error + SnakeGame" where
  "handle_food_eaten g rnd =
     (case (snake g, food g) of
        (Some s, Some f) \<Rightarrow>
          (let (s', names) = eat_food s;
               g1 = play_sound (g\<lparr>snake := Some s'\<rparr>) names;
               g2 = g1\<lparr>score := score g1 + 10\<rparr>
           in Inr (g2\<lparr>food := Some (respawn f (positions s') rnd)\<rparr>))
      | _ \<Rightarrow> Inl AttributeError)"

text \<open>
  \<^verbatim>\<open>_update_game_logic\<close>, one call per frame: outside \<open>PLAYING\<close> only animations
  run. \<open>rnd\<close> supplies the draws of a respawn in this step, \<open>now\<close> the clock reading
  used if a score is stored.
\<close>

definition update_game_logic ::
    "SnakeGame \<Rightarrow> (nat \<Rightarrow> nat \<times> nat) \<Rightarrow> string \<Rightarrow> py_error + SnakeGame" where
  "update_game_logic g rnd now =
     (if state g = PLAYING then
        (case snake g of
           None \<Rightarrow> Inl AttributeError
         | Some s \<Rightarrow>
             (case move s of
                Inl e \<Rightarrow> Inl e
              | Inr s1 \<Rightarrow>
                  (case food g of
                     None \<Rightarrow> Inl AttributeError
                   | Some f \<Rightarrow>
                       (let g1 = g\<lparr>snake := Some s1\<rparr>
                        in case check_collision s1 of
                             Inl e \<Rightarrow> Inl e
                           | Inr True \<Rightarrow> Inr (handle_game_over g1 now)
                           | Inr False \<Rightarrow>
                               if hd (positions s1) = position f
                               then handle_food_eaten g1 rnd
                               else Inr g1))))
      else Inr g)"

text \<open>One pass of the main loop: the events of the frame, then the game logic.\<close>

definition frame ::
    "SnakeGame \<Rightarrow> event list \<Rightarrow> nat \<times> nat \<Rightarrow> (nat \<Rightarrow> nat \<times> nat) \<Rightarrow> string
      \<Rightarrow> py_error + bool \<times> SnakeGame" where
  "frame g evs r rnd now =
     (case handle_events g evs r of
        Inl e \<Rightarrow> Inl e
      | Inr (running, g1) \<Rightarrow>
          (case update_game_logic g1 rnd now of
             Inl e \<Rightarrow> Inl e
           | Inr g2 \<Rightarrow> Inr (running, g2)))"

section \<open>Notions used in the statements\<close>

text \<open>A cell of the grid: \<open>0 \<le> x < GRID_WIDTH\<close> and \<open>0 \<le> y < GRID_HEIGHT\<close>.\<close>

definition in_grid :: "cell \<Rightarrow> bool" where
  "in_grid c = (0 \<le> fst c \<and> fst c < GRID_WIDTH \<and> 0 \<le> snd c \<and> snd c < GRID_HEIGHT)"

text \<open>The cell that \<^verbatim>\<open>move\<close> computes as \<^verbatim>\<open>new_head\<close>.\<close>

definition new_head :: "Snake \<Rightarrow> cell" where
  "new_head s =
     (fst (hd (positions s)) + fst (direction s), snd (hd (positions s)) + snd (direction s))"

text \<open>The snake that \<^verbatim>\<open>move\<close> leaves behind when the body is not empty.\<close>

definition moved :: "Snake \<Rightarrow> Snake" where
  "moved s =
     (if grow_pending s
      then s\<lparr>positions := new_head s # positions s, grow_pending := False\<rparr>
      else s\<lparr>positions := new_head s # butlast (positions s)\<rparr>)"

text \<open>What \<^verbatim>\<open>check_collision\<close> answers on a body that is not empty.\<close>

definition collided :: "Snake \<Rightarrow> bool" where
  "collided s \<longleftrightarrow>
     \<not> in_grid (hd (positions s)) \<or> hd (positions s) \<in> set (tl (positions s))"

text \<open>The state that \<^verbatim>\<open>_handle_food_eaten\<close> leaves behind.\<close>

definition eaten :: "SnakeGame \<Rightarrow> Snake \<Rightarrow> Food \<Rightarrow> (nat \<Rightarrow> nat \<times> nat) \<Rightarrow> SnakeGame" where
  "eaten g s1 f rnd =
     g\<lparr>snake := Some (s1\<lparr>grow_pending := True\<rparr>),
       play_sound_calls := play_sound_calls g @ [''eat''],
       score := score g + 10,
       food := Some (respawn f (positions s1) rnd)\<rparr>"

text \<open>A list of entries in descending order of score, and the list stored for a difficulty.\<close>

definition sorted_desc :: "entry list \<Rightarrow> bool" where
  "sorted_desc l = sorted_wrt (\<lambda>a b. entry_score a \<ge> entry_score b) l"

definition stored :: "scores \<Rightarrow> string \<Rightarrow> entry list" where
  "stored scs difficulty = (case scs difficulty of Some l \<Rightarrow> l | None \<Rightarrow> [])"

text \<open>Concrete inputs for the examples: a generator that repeats one draw, and a game
  in play with a given snake and food.\<close>

definition constant_draws :: "nat \<times> nat \<Rightarrow> nat \<Rightarrow> nat \<times> nat" where
  "constant_draws r i = r"

definition playing :: "Snake \<Rightarrow> Food \<Rightarrow> SnakeGame" where
  "playing s f = (SnakeGame_init empty_scores)\<lparr>state := PLAYING, snake := Some s, food := Some f\<rparr>"

text \<open>Entries with given scores, for the examples.\<close>

definition entries_of :: "int list \<Rightarrow> entry list" where
  "entries_of vs = map (\<lambda>v. \<lparr>entry_score = v, player = ''P'', date = ''2024-01-01 12:00''\<rparr>) vs"

text \<open>The direction a key asks for while playing, and the effect of one request on the
  stored direction: the test of \<^verbatim>\<open>change_direction\<close>.\<close>

definition key_direction :: "key \<Rightarrow> cell option" where
  "key_direction k =
     (if k \<in> set [K_UP, K_w] then Some (0, - 1)
      else if k \<in> set [K_DOWN, K_s] then Some (0, 1)
      else if k \<in> set [K_LEFT, K_a] then Some (- 1, 0)
      else if k \<in> set [K_RIGHT, K_d] then Some (1, 0)
      else None)"

definition request :: "cell \<Rightarrow> cell \<Rightarrow> cell" where
  "request d new_direction =
     (if (fst new_direction * (- 1), snd new_direction * (- 1)) \<noteq> d then new_direction else d)"

definition directions_of :: "key list \<Rightarrow> cell list" where
  "directions_of ks = List.map_filter key_direction ks"

text \<open>Adding a list of scores one after the other, for the examples.\<close>

definition add_all :: "scores \<Rightarrow> string \<Rightarrow> int list \<Rightarrow> scores" where
  "add_all scs d vs = foldl (\<lambda>t v. fst (add_score t d v ''P'' ''2024-01-01 12:00'')) scs vs"

section \<open>Basic facts\<close>

lemma GRID_WIDTH_eq: "GRID_WIDTH = 35"
  by (simp add: GRID_WIDTH_def GAME_AREA_WIDTH_def GRID_SIZE_def)

lemma GRID_HEIGHT_eq: "GRID_HEIGHT = 27"
  by (simp add: GRID_HEIGHT_def GAME_AREA_HEIGHT_def GRID_SIZE_def)

lemma generate_position_in_grid: "in_grid (generate_position r)"
  by (simp add: in_grid_def generate_position_def randint_def GRID_WIDTH_eq GRID_HEIGHT_eq)

lemma generate_position_small:
  "a < 35 \<Longrightarrow> b < 27 \<Longrightarrow> generate_position (a, b) = (int a, int b)"
  by (simp add: generate_position_def randint_def GRID_WIDTH_eq GRID_HEIGHT_eq)

lemma move_moved: "positions s \<noteq> [] \<Longrightarrow> move s = Inr (moved s)"
  by (cases "positions s") (auto simp: move_def new_head_def moved_def Let_def)

lemma positions_moved_neq_Nil [simp]: "positions (moved s) \<noteq> []"
  by (simp add: moved_def)

lemma hd_positions_moved [simp]: "hd (positions (moved s)) = new_head s"
  by (simp add: moved_def)

lemma length_positions_moved:
  "positions s \<noteq> [] \<Longrightarrow>
     length (positions (moved s)) = length (positions s) + (if grow_pending s then 1 else 0)"
  by (simp add: moved_def)

lemma grow_pending_moved [simp]: "\<not> grow_pending (moved s)"
  by (simp add: moved_def)

lemma direction_moved [simp]: "direction (moved s) = direction s"
  by (simp add: moved_def)

lemma check_collision_collided: "positions s \<noteq> [] \<Longrightarrow> check_collision s = Inr (collided s)"
  by (cases "positions s") (auto simp: check_collision_def collided_def in_grid_def)

lemma play_sound_Nil: "play_sound g [] = g"
  by (simp add: play_sound_def)

lemma handle_game_over_fields [simp]:
  "state (handle_game_over g now) = GAME_OVER"
  "snake (handle_game_over g now) = snake g"
  "food (handle_game_over g now) = food g"
  "score (handle_game_over g now) = score g"
  "current_difficulty (handle_game_over g now) = current_difficulty g"
  by (simp_all add: handle_game_over_def play_sound_def Let_def)

lemma handle_food_eaten_eq:
  "snake g = Some s1 \<Longrightarrow> food g = Some f \<Longrightarrow> handle_food_eaten g rnd = Inr (eaten g s1 f rnd)"
  by (simp add: handle_food_eaten_def eat_food_def play_sound_def eaten_def)

text \<open>One step of the game in play, by cases: collision, food eaten, plain move.\<close>

lemma update_game_logic_playing:
  assumes "state g = PLAYING" and "snake g = Some s" and "food g = Some f"
    and "positions s \<noteq> []"
  shows "update_game_logic g rnd now =
           Inr (if collided (moved s) then handle_game_over (g\<lparr>snake := Some (moved s)\<rparr>) now
                else if new_head s = position f
                     then eaten (g\<lparr>snake := Some (moved s)\<rparr>) (moved s) f rnd
                     else g\<lparr>snake := Some (moved s)\<rparr>)"
  using assms
  by (simp add: update_game_logic_def move_moved check_collision_collided handle_food_eaten_eq)

section \<open>A new session\<close>

text \<open>
  C10: every newly created session starts with the body equal to the single cell
  \<open>(GRID_WIDTH div 2, GRID_HEIGHT div 2) = (17, 13)\<close>, the direction right \<open>(1, 0)\<close>, no
  growth pending and a score of 0, whatever the state \<open>g\<close> before (in particular whatever
  direction a previous session ended with).
\<close>

theorem new_session_initial_state:
  "snake (start_new_game g r) =
     Some \<lparr>positions = [(GRID_WIDTH div 2, GRID_HEIGHT div 2)], direction = (1, 0),
           grow_pending = False\<rparr>
   \<and> score (start_new_game g r) = 0
   \<and> state (start_new_game g r) = PLAYING
   \<and> (GRID_WIDTH div 2, GRID_HEIGHT div 2) = (17, 13)"
  by (simp add: start_new_game_def play_sound_def Snake_init_def GRID_WIDTH_eq GRID_HEIGHT_eq)

text \<open>A session that ended moving up with a score of 30 is followed by one that starts
  at the centre, moving right, with score 0.\<close>

theorem new_session_initial_state_witness:
  "snake (start_new_game
            ((playing \<lparr>positions = [(3, - 1), (3, 0)], direction = (0, - 1), grow_pending = True\<rparr>
                      \<lparr>position = (9, 9)\<rparr>)
               \<lparr>state := GAME_OVER, score := 30\<rparr>) (4, 4))
     = Some \<lparr>positions = [(17, 13)], direction = (1, 0), grow_pending = False\<rparr>
   \<and> score (start_new_game
            ((playing \<lparr>positions = [(3, - 1), (3, 0)], direction = (0, - 1), grow_pending = True\<rparr>
                      \<lparr>position = (9, 9)\<rparr>)
               \<lparr>state := GAME_OVER, score := 30\<rparr>) (4, 4)) = 0"
  using new_session_initial_state
    [of "(playing \<lparr>positions = [(3, - 1), (3, 0)], direction = (0, - 1), grow_pending = True\<rparr>
                  \<lparr>position = (9, 9)\<rparr>)\<lparr>state := GAME_OVER, score := 30\<rparr>" "(4, 4)"]
  by simp

section \<open>Direction changes\<close>

text \<open>
  C8: a direction request that is the exact negation of the snake's current direction
  is dropped without a sound and leaves the snake unchanged. While moving right, the
  left key leaves the game state as it was and the next step still moves the head one
  cell to the right. A request that is not the negation of the current direction
  becomes the direction.
\<close>

theorem reversal_request_dropped:
  assumes "state g = PLAYING" and "snake g = Some s" and "food g = Some f"
    and "positions s \<noteq> []"
  shows "change_direction s (- fst (direction s), - snd (direction s)) = (s, [])
     \<and> snake_change_direction g (- fst (direction s), - snd (direction s)) = Inr (True, g)
     \<and> (direction s = (1, 0) \<longrightarrow>
          handle_keyboard_input g K_LEFT r = Inr (True, g)
          \<and> (\<exists>g' s'. frame g [KEYDOWN K_LEFT] r rnd now = Inr (True, g')
                \<and> snake g' = Some s' \<and> direction s' = (1, 0)
                \<and> hd (positions s') = (fst (hd (positions s)) + 1, snd (hd (positions s)))))
     \<and> ((fst nd * (- 1), snd nd * (- 1)) \<noteq> direction s \<longrightarrow>
          direction (fst (change_direction s nd)) = nd)"
proof -
  have drop: "change_direction s (- fst (direction s), - snd (direction s)) = (s, [])"
    by (simp add: change_direction_def)
  have game: "snake_change_direction g (- fst (direction s), - snd (direction s)) = Inr (True, g)"
    using assms(2) by (simp add: snake_change_direction_def drop play_sound_Nil)
  have right: "handle_keyboard_input g K_LEFT r = Inr (True, g)
          \<and> (\<exists>g' s'. frame g [KEYDOWN K_LEFT] r rnd now = Inr (True, g')
                \<and> snake g' = Some s' \<and> direction s' = (1, 0)
                \<and> hd (positions s') = (fst (hd (positions s)) + 1, snd (hd (positions s))))"
    if d: "direction s = (1, 0)"
  proof -
    from game d assms(1) have key: "handle_keyboard_input g K_LEFT r = Inr (True, g)"
      by (simp add: handle_keyboard_input_def)
    have nh: "new_head s = (fst (hd (positions s)) + 1, snd (hd (positions s)))"
      by (simp add: new_head_def d)
    from key assms d nh show ?thesis
      by (simp add: frame_def update_game_logic_playing eaten_def)
  qed
  have accept: "direction (fst (change_direction s nd)) = nd"
    if "(fst nd * (- 1), snd nd * (- 1)) \<noteq> direction s"
    using that by (simp add: change_direction_def)
  from drop game right accept show ?thesis by blast
qed

text \<open>Scenario B on a snake of two cells heading right at \<open>(5, 5)\<close>: after the left key
  the next step puts the head on \<open>(6, 5)\<close>.\<close>

theorem reversal_request_dropped_witness:
  "handle_keyboard_input
     (playing \<lparr>positions = [(5, 5), (4, 5)], direction = (1, 0), grow_pending = False\<rparr>
              \<lparr>position = (9, 9)\<rparr>) K_LEFT (0, 0)
   = Inr (True, playing \<lparr>positions = [(5, 5), (4, 5)], direction = (1, 0), grow_pending = False\<rparr>
                        \<lparr>position = (9, 9)\<rparr>)
   \<and> (\<exists>g' s'. frame (playing \<lparr>positions = [(5, 5), (4, 5)], direction = (1, 0), grow_pending = False\<rparr>
                        \<lparr>position = (9, 9)\<rparr>) [KEYDOWN K_LEFT] (0, 0) (constant_draws (0, 0)) ''now''
                 = Inr (True, g')
          \<and> snake g' = Some s' \<and> hd (positions s') = (6, 5))"
proof -
  let ?s = "\<lparr>positions = [(5, 5), (4, 5)], direction = (1, 0), grow_pending = False\<rparr>"
  let ?f = "\<lparr>position = (9, 9)\<rparr>"
  have h: "state (playing ?s ?f) = PLAYING" "snake (playing ?s ?f) = Some ?s"
    "food (playing ?s ?f) = Some ?f" "positions ?s \<noteq> []"
    by (simp_all add: playing_def)
  have d: "direction ?s = (1, 0)" by simp
  from reversal_request_dropped [OF h, of "(0, 0)" "constant_draws (0, 0)" "''now''" "(0, 1)"] d
  have "handle_keyboard_input (playing ?s ?f) K_LEFT (0, 0) = Inr (True, playing ?s ?f)
     \<and> (\<exists>g' s'. frame (playing ?s ?f) [KEYDOWN K_LEFT] (0, 0) (constant_draws (0, 0)) ''now''
                   = Inr (True, g')
            \<and> snake g' = Some s' \<and> direction s' = (1, 0)
            \<and> hd (positions s') = (fst (hd (positions ?s)) + 1, snd (hd (positions ?s))))"
    by blast
  then show ?thesis by simp blast
qed

section \<open>Body length\<close>

text \<open>
  C6: in every step the body length does not decrease: it grows by exactly 1 when the
  step runs with \<open>grow_pending\<close> set and is unchanged otherwise. \<open>grow_pending\<close> is set
  after the step exactly when the game goes on and the new head is on the food cell;
  the score then grows by 10, and the body does not grow in that step.
\<close>

theorem body_length_step:
  assumes "state g = PLAYING" and "snake g = Some s" and "food g = Some f"
    and "positions s \<noteq> []"
  shows "\<exists>g' s'. update_game_logic g rnd now = Inr g' \<and> snake g' = Some s'
           \<and> length (positions s') = length (positions s) + (if grow_pending s then 1 else 0)
           \<and> (grow_pending s' \<longleftrightarrow> state g' = PLAYING \<and> hd (positions s') = position f)
           \<and> score g' = score g + (if grow_pending s' then 10 else 0)"
proof (cases "collided (moved s)")
  case True
  with assms show ?thesis
    by (simp add: update_game_logic_playing length_positions_moved)
next
  case False
  with assms show ?thesis
    by (simp add: update_game_logic_playing length_positions_moved eaten_def)
qed

text \<open>A snake of one cell at \<open>(5, 5)\<close> heading right with the food at \<open>(6, 5)\<close>: the step
  that enters the food cell keeps the length 1 and sets the flag; the next step has
  length 2.\<close>

theorem body_length_step_witness:
  "\<exists>g' s'. update_game_logic
              (playing \<lparr>positions = [(5, 5)], direction = (1, 0), grow_pending = False\<rparr>
                       \<lparr>position = (6, 5)\<rparr>) (constant_draws (9, 9)) ''now'' = Inr g'
     \<and> snake g' = Some s' \<and> length (positions s') = 1 \<and> grow_pending s' \<and> score g' = 10"
proof -
  let ?s = "\<lparr>positions = [(5, 5)], direction = (1, 0), grow_pending = False\<rparr>"
  let ?f = "\<lparr>position = (6, 5)\<rparr>"
  have h: "state (playing ?s ?f) = PLAYING" "snake (playing ?s ?f) = Some ?s"
    "food (playing ?s ?f) = Some ?f" "positions ?s \<noteq> []"
    by (simp_all add: playing_def)
  from body_length_step [OF h, of "constant_draws (9, 9)" "''now''"]
  obtain g' s' where r: "update_game_logic (playing ?s ?f) (constant_draws (9, 9)) ''now'' = Inr g'"
    "snake g' = Some s'"
    "length (positions s') = length (positions ?s) + (if grow_pending ?s then 1 else 0)"
    "grow_pending s' \<longleftrightarrow> state g' = PLAYING \<and> hd (positions s') = position ?f"
    "score g' = score (playing ?s ?f) + (if grow_pending s' then 10 else 0)"
    by blast
  have "update_game_logic (playing ?s ?f) (constant_draws (9, 9)) ''now''
          = Inr (eaten ((playing ?s ?f)\<lparr>snake := Some (moved ?s)\<rparr>) (moved ?s) ?f (constant_draws (9, 9)))"
    by (simp add: update_game_logic_playing [OF h] collided_def moved_def new_head_def in_grid_def
        GRID_WIDTH_eq GRID_HEIGHT_eq)
  with r(1) have g': "g' = eaten ((playing ?s ?f)\<lparr>snake := Some (moved ?s)\<rparr>) (moved ?s) ?f (constant_draws (9, 9))"
    by simp
  from r(2) g' have "state g' = PLAYING \<and> hd (positions s') = position ?f"
    by (auto simp: eaten_def playing_def new_head_def)
  with r have "grow_pending s'" "length (positions s') = 1" "score g' = 10"
    by (simp_all add: playing_def SnakeGame_init_def)
  with r(1,2) show ?thesis by blast
qed

section \<open>Collision\<close>



text \<open>The hypotheses on the body hold in every state a game reaches: a step that does
  not end the game keeps the body non-empty, pairwise distinct and inside the grid.\<close>

lemma body_invariant_step:
  assumes "state g = PLAYING" and "snake g = Some s" and "food g = Some f"
    and "positions s \<noteq> []" and "distinct (positions s)"
    and "update_game_logic g rnd now = Inr g'" and "state g' = PLAYING"
    and "\<forall>c \<in> set (positions s). in_grid c"
  shows "\<exists>s'. snake g' = Some s' \<and> positions s' \<noteq> [] \<and> distinct (positions s')
           \<and> (\<forall>c \<in> set (positions s'). in_grid c)"
proof -
  have nc: "\<not> collided (moved s)"
  proof
    assume "collided (moved s)"
    with assms(1-4,6) have "g' = handle_game_over (g\<lparr>snake := Some (moved s)\<rparr>) now"
      by (simp add: update_game_logic_playing)
    with assms(7) show False by simp
  qed
  have sub: "set (butlast (positions s)) \<subseteq> set (positions s)"
    by (auto dest: in_set_butlastD)
  have ok: "distinct (positions (moved s)) \<and> (\<forall>c \<in> set (positions (moved s)). in_grid c)"
    using nc assms(5,8) sub
    by (auto simp: collided_def moved_def distinct_butlast)
  from nc assms(1-4,6)
  have "snake g' = Some (moved s) \<or> snake g' = Some ((moved s)\<lparr>grow_pending := True\<rparr>)"
    by (auto simp: update_game_logic_playing eaten_def split: if_splits)
  with ok show ?thesis by auto
qed

section \<open>Final score\<close>

lemma round_half_even_of_int: "round_half_even (of_int m) = m"
  by (simp add: round_half_even_def)

lemma log2_floor_le:
  assumes "0 < x"
  shows "2 powi (log2_floor x) \<le> x"
proof -
  obtain p q where pq: "quotient_of x = (p, q)" by (cases "quotient_of x")
  then have x: "x = of_int p / of_int q" and q: "0 < q"
    by (simp_all add: quotient_of_div quotient_of_denom_pos)
  with assms have p: "0 < p" by (simp add: zero_less_divide_iff)
  let ?d = "bitlen p - bitlen q"
  show ?thesis
  proof (cases "2 powi ?d \<le> x")
    case True
    with assms pq show ?thesis by (simp add: log2_floor_def)
  next
    case False
    with assms pq have e: "log2_floor x = ?d - 1" by (simp add: log2_floor_def)
    from bitlen_bounds [OF p] have lo: "2 ^ nat (bitlen p - 1) \<le> p" by simp
    from bitlen_bounds [OF q] have hi: "q < 2 ^ nat (bitlen q)" by simp
    from p have bp: "1 \<le> bitlen p" by (auto simp: bitlen_alt_def)
    have bq: "0 \<le> bitlen q" by (rule bitlen_nonneg)
    have "?d - 1 = (bitlen p - 1) - bitlen q" by simp
    then have "(2::rat) powi (?d - 1) = 2 powi (bitlen p - 1) / 2 powi (bitlen q)"
      by (simp only: power_int_diff [of "2::rat" "bitlen p - 1" "bitlen q", simplified])
    also have "\<dots> = 2 ^ nat (bitlen p - 1) / 2 ^ nat (bitlen q)"
      using bp bq by (simp add: power_int_def)
    also have "\<dots> \<le> of_int p / 2 ^ nat (bitlen q)"
    proof -
      from lo have "(of_int (2 ^ nat (bitlen p - 1)) :: rat) \<le> of_int p"
        by (simp only: of_int_le_iff)
      then show ?thesis by (simp add: divide_right_mono)
    qed
    also have "\<dots> \<le> of_int p / of_int q"
    proof -
      from hi have "(of_int q :: rat) \<le> of_int (2 ^ nat (bitlen q))"
        by (simp only: of_int_le_iff less_imp_le)
      with p q show ?thesis by (simp add: divide_left_mono)
    qed
    finally have "(2::rat) powi (?d - 1) \<le> x" by (simp only: x [symmetric])
    then show ?thesis by (simp only: e)
  qed
qed

text \<open>A non-negative multiple of one half below \<open>2 ^ 52\<close> is a double.\<close>

lemma to_double_exact:
  assumes "0 \<le> x" and "x < 2 ^ 52" and "2 * x = of_int k"
  shows "to_double x = x"
proof (cases "x = 0")
  case True
  then show ?thesis by (simp add: to_double_def)
next
  case False
  with assms(1) have pos: "0 < x" by simp
  let ?e = "log2_floor x"
  have "(2::rat) powi ?e \<le> x" using pos by (rule log2_floor_le)
  with assms(2) have below: "(2::rat) powi ?e < 2 powi 52" by simp
  have lt: "?e < 52"
  proof (rule ccontr)
    assume "\<not> ?e < 52"
    then have "52 \<le> ?e" by simp
    then have "(2::rat) powi 52 \<le> 2 powi ?e" by (rule power_int_increasing) simp
    with below show False by simp
  qed
  define n where "n = nat (51 - ?e)"
  with lt have n: "?e = 51 - int n" by simp
  have ulp: "(2::rat) powi (?e - 52) = 1 / 2 ^ (n + 1)"
  proof -
    have "?e - 52 = - int (n + 1)" using n by simp
    then have "(2::rat) powi (?e - 52) = 2 powi (- int (n + 1))" by (simp only:)
    also have "\<dots> = inverse (2 ^ (n + 1))"
      by (simp only: power_int_minus power_int_of_nat)
    finally show ?thesis by (simp only: inverse_eq_divide)
  qed
  have "x / (1 / 2 ^ (n + 1)) = (2 * x) * 2 ^ n" by simp
  also have "\<dots> = of_int (k * 2 ^ n)" by (simp add: assms(3))
  finally have q: "x / (1 / 2 ^ (n + 1)) = of_int (k * 2 ^ n)" .
  have "to_double x = of_int (round_half_even (x / (1 / 2 ^ (n + 1)))) * (1 / 2 ^ (n + 1))"
    using False by (simp add: to_double_def Let_def ulp)
  also have "\<dots> = of_int (k * 2 ^ n) * (1 / 2 ^ (n + 1))"
    by (simp only: q round_half_even_of_int)
  also have "\<dots> = x" using q by (simp add: field_simps)
  finally show ?thesis .
qed

lemma get_config_multiplier:
  "multiplier (get_config d)
     = (if d = ''EASY'' then 1 else if d = ''HARD'' then 2 else 3 / 2)"
  by (simp add: get_config_def DIFFICULTIES_def)

text \<open>For a score from 0 up to \<open>2 ^ 51\<close> neither the conversion of the score nor the
  product with the multiplier is rounded.\<close>

lemma final_score_exact:
  assumes "0 \<le> score g" and "score g < 2 ^ 51"
  shows "final_score g = \<lfloor>of_int (score g) * multiplier (get_config (current_difficulty g))\<rfloor>"
proof -
  let ?n = "score g"
  let ?m = "multiplier (get_config (current_difficulty g))"
  from assms(1) have n0: "(0::rat) \<le> of_int ?n" by simp
  from assms(2) have "(of_int ?n :: rat) < of_int (2 ^ 51)" by (simp only: of_int_less_iff)
  then have n1: "(of_int ?n :: rat) < 2 ^ 51" by simp
  note n = n0 n1
  from n1 have "(of_int ?n :: rat) < 2 ^ 52" by simp
  moreover have "2 * (of_int ?n :: rat) = of_int (2 * ?n)" by simp
  ultimately have conv: "float_of_int ?n = of_int ?n"
    unfolding float_of_int_def using n(1) by (intro to_double_exact)
  have m: "?m = 1 \<or> ?m = 2 \<or> ?m = 3 / 2" by (simp add: get_config_multiplier)
  have bounds: "0 \<le> of_int ?n * ?m \<and> of_int ?n * ?m < 2 ^ 52
                \<and> (\<exists>k. 2 * (of_int ?n * ?m) = of_int k)"
    using m
  proof (elim disjE)
    assume one: "?m = 1"
    have "2 * ((of_int ?n :: rat) * 1) = of_int (2 * ?n)" by simp
    then have "\<exists>k. 2 * ((of_int ?n :: rat) * 1) = of_int k" ..
    with n0 n1 show ?thesis by (simp add: one)
  next
    assume two: "?m = 2"
    have "2 * ((of_int ?n :: rat) * 2) = of_int (4 * ?n)" by simp
    then have "\<exists>k. 2 * ((of_int ?n :: rat) * 2) = of_int k" ..
    moreover from n1 have "(of_int ?n :: rat) * 2 < 2 ^ 51 * 2" by simp
    then have "(of_int ?n :: rat) * 2 < 2 ^ 52" by simp
    ultimately show ?thesis using n0 by (simp add: two)
  next
    assume half: "?m = 3 / 2"
    have "2 * ((of_int ?n :: rat) * (3 / 2)) = of_int (3 * ?n)" by simp
    then have "\<exists>k. 2 * ((of_int ?n :: rat) * (3 / 2)) = of_int k" ..
    moreover from n1 have "(of_int ?n :: rat) * (3 / 2) < 2 ^ 51 * (3 / 2)"
      by simp
    then have "(of_int ?n :: rat) * (3 / 2) < 2 ^ 52" by simp
    moreover from n0 have "0 \<le> (of_int ?n :: rat) * (3 / 2)" by simp
    ultimately show ?thesis by (simp only: half)
  qed
  have prod: "float_mul (of_int ?n) ?m = of_int ?n * ?m"
  proof -
    from bounds obtain k where "2 * (of_int ?n * ?m) = of_int k" by blast
    with bounds show ?thesis
      unfolding float_mul_def by (intro to_double_exact [of _ k]) simp_all
  qed
  from bounds have "0 \<le> of_int ?n * ?m" by simp
  then show ?thesis
    by (simp add: final_score_def conv prod py_int_def)
qed

text \<open>
  C9: when a step ends the session by a collision, the final score is
  \<open>\<lfloor>score * multiplier\<rfloor>\<close> for the multiplier of the session's difficulty: 1 for EASY, 2
  for HARD and \<open>3 / 2\<close> for MEDIUM (and for any other name, which is scored as MEDIUM).
  It is the value shown on the game-over screen and the one offered to the
  leaderboard. A raw score of 40 on MEDIUM yields 60. The raw score is a non-negative
  integer; it is taken below \<open>2 ^ 51\<close>, where the float product is exact.
\<close>

theorem final_score_on_collision:
  assumes "state g = PLAYING" and "snake g = Some s" and "food g = Some f"
    and "move s = Inr s1" and "check_collision s1 = Inr True"
    and "0 \<le> score g" and "score g < 2 ^ 51"
  shows "\<exists>g'. update_game_logic g rnd now = Inr g' \<and> state g' = GAME_OVER
           \<and> multiplier (get_config (current_difficulty g))
               = (if current_difficulty g = ''EASY'' then 1
                  else if current_difficulty g = ''HARD'' then 2 else 3 / 2)
           \<and> final_score g' = \<lfloor>of_int (score g) * multiplier (get_config (current_difficulty g))\<rfloor>
           \<and> final_score g'
               = (if current_difficulty g = ''EASY'' then score g
                  else if current_difficulty g = ''HARD'' then 2 * score g
                  else 3 * score g div 2)
           \<and> score_manager g'
               = (if is_high_score (score_manager g) (current_difficulty g) (final_score g')
                  then fst (add_score (score_manager g) (current_difficulty g) (final_score g')
                              ''Player'' now)
                  else score_manager g)
           \<and> (current_difficulty g = ''MEDIUM'' \<and> score g = 40 \<longrightarrow> final_score g' = 60)"
proof -
  let ?g1 = "g\<lparr>snake := Some s1\<rparr>"
  let ?m = "multiplier (get_config (current_difficulty g))"
  from assms(1-5) have upd: "update_game_logic g rnd now = Inr (handle_game_over ?g1 now)"
    by (simp add: update_game_logic_def)
  have fs_eq: "final_score (handle_game_over ?g1 now) = final_score g"
    by (simp add: final_score_def)
  have fl: "final_score g = \<lfloor>of_int (score g) * ?m\<rfloor>"
    using assms(6,7) by (rule final_score_exact)
  have half: "\<lfloor>(of_int (score g) :: rat) * (3 / 2)\<rfloor> = 3 * score g div 2"
  proof -
    have "(of_int (score g) :: rat) * (3 / 2) = of_int (3 * score g) / of_int 2" by simp
    then show ?thesis by (simp only: floor_divide_of_int_eq)
  qed
  have cases: "final_score g
               = (if current_difficulty g = ''EASY'' then score g
                  else if current_difficulty g = ''HARD'' then 2 * score g
                  else 3 * score g div 2)"
  proof -
    have "\<lfloor>(of_int (score g) :: rat) * 2\<rfloor> = 2 * score g"
      by (metis floor_of_int mult.commute of_int_mult of_int_numeral)
    with half show ?thesis by (simp add: fl get_config_multiplier)
  qed
  have sm: "score_manager (handle_game_over ?g1 now)
               = (if is_high_score (score_manager g) (current_difficulty g) (final_score g)
                  then fst (add_score (score_manager g) (current_difficulty g) (final_score g)
                              ''Player'' now)
                  else score_manager g)"
    by (simp add: handle_game_over_def play_sound_def Let_def fs_eq [symmetric])
      (simp add: final_score_def)
  have ex: "final_score g = 60" if "current_difficulty g = ''MEDIUM''" "score g = 40"
    using that by (simp add: cases)
  from upd fs_eq fl cases sm ex get_config_multiplier [of "current_difficulty g"]
  show ?thesis by simp
qed

text \<open>Scenario C: a MEDIUM session with raw score 40 whose head at \<open>(34, 5)\<close> runs into
  the right wall ends with the final score 60; the same session on HARD ends with
  80.\<close>

theorem final_score_on_collision_witness:
  "(\<exists>g'. update_game_logic
           ((playing \<lparr>positions = [(34, 5)], direction = (1, 0), grow_pending = False\<rparr>
                     \<lparr>position = (9, 9)\<rparr>)\<lparr>score := 40\<rparr>) (constant_draws (0, 0)) ''now'' = Inr g'
      \<and> state g' = GAME_OVER \<and> final_score g' = 60)
   \<and> (\<exists>g'. update_game_logic
           ((playing \<lparr>positions = [(34, 5)], direction = (1, 0), grow_pending = False\<rparr>
                     \<lparr>position = (9, 9)\<rparr>)\<lparr>score := 40, current_difficulty := ''HARD''\<rparr>)
           (constant_draws (0, 0)) ''now'' = Inr g'
      \<and> state g' = GAME_OVER \<and> final_score g' = 80)"
proof -
  let ?s = "\<lparr>positions = [(34, 5)], direction = (1, 0), grow_pending = False\<rparr>"
  let ?s1 = "\<lparr>positions = [(35, 5)], direction = (1, 0), grow_pending = False\<rparr>"
  let ?f = "\<lparr>position = (9, 9)\<rparr>"
  let ?g = "(playing ?s ?f)\<lparr>score := 40\<rparr>"
  let ?h = "(playing ?s ?f)\<lparr>score := 40, current_difficulty := ''HARD''\<rparr>"
  have mv: "move ?s = Inr ?s1" "check_collision ?s1 = Inr True"
    by (simp_all add: move_def check_collision_def GRID_WIDTH_eq GRID_HEIGHT_eq)
  have hg: "state ?g = PLAYING" "snake ?g = Some ?s" "food ?g = Some ?f"
    and bg: "0 \<le> score ?g" "score ?g < 2 ^ 51"
    and dg: "current_difficulty ?g = ''MEDIUM''" "score ?g = 40"
    by (simp_all add: playing_def SnakeGame_init_def)
  have hh: "state ?h = PLAYING" "snake ?h = Some ?s" "food ?h = Some ?f"
    and bh: "0 \<le> score ?h" "score ?h < 2 ^ 51"
    and dh: "current_difficulty ?h = ''HARD''" "score ?h = 40"
    by (simp_all add: playing_def SnakeGame_init_def)
  from final_score_on_collision [OF hg mv bg, of "constant_draws (0, 0)" "''now''"] dg
  have a: "\<exists>g'. update_game_logic ?g (constant_draws (0, 0)) ''now'' = Inr g'
      \<and> state g' = GAME_OVER \<and> final_score g' = 60"
    by auto
  from final_score_on_collision [OF hh mv bh, of "constant_draws (0, 0)" "''now''"] dh
  have b: "\<exists>g'. update_game_logic ?h (constant_draws (0, 0)) ''now'' = Inr g'
      \<and> state g' = GAME_OVER \<and> final_score g' = 80"
    by auto
  from a b show ?thesis by blast
qed

section \<open>Leaderboard qualification\<close>

lemma sorted_desc_last_le:
  "sorted_desc l \<Longrightarrow> x \<in> set l \<Longrightarrow> entry_score (last l) \<le> entry_score x"
  unfolding sorted_desc_def
proof (induction l)
  case Nil
  then show ?case by simp
next
  case (Cons a l)
  then show ?case by (cases "l = []") auto
qed

lemma sorted_desc_last_Min:
  assumes "sorted_desc l" and "l \<noteq> []"
  shows "entry_score (last l) = Min (entry_score ` set l)"
proof -
  have "Min (entry_score ` set l) = entry_score (last l)"
  proof (rule Min_eqI)
    show "finite (entry_score ` set l)" by simp
    show "\<And>y. y \<in> entry_score ` set l \<Longrightarrow> entry_score (last l) \<le> y"
      using assms(1) sorted_desc_last_le by auto
    show "entry_score (last l) \<in> entry_score ` set l"
      using assms(2) by simp
  qed
  then show ?thesis by simp
qed

text \<open>
  C5: on a stored list that satisfies the leaderboard invariant (at most 10 entries,
  in descending order of score), \<open>is_high_score\<close> is true if and only if the list has
  fewer than 10 entries or the score is strictly greater than the score of the 10th
  entry, which is the lowest stored score. A score equal to the lowest one does not
  qualify when the list is full.
\<close>

theorem is_high_score_iff:
  assumes "length (stored scs d) \<le> 10" and "sorted_desc (stored scs d)"
  shows "(is_high_score scs d sc \<longleftrightarrow>
            length (stored scs d) < 10 \<or> sc > entry_score (stored scs d ! 9))
         \<and> (length (stored scs d) = 10 \<longrightarrow>
              entry_score (stored scs d ! 9) = Min (entry_score ` set (stored scs d))
              \<and> \<not> is_high_score scs d (Min (entry_score ` set (stored scs d))))"
proof -
  let ?l = "stored scs d"
  have iff: "is_high_score scs d x \<longleftrightarrow> length ?l < 10 \<or> (?l \<noteq> [] \<and> x > entry_score (last ?l))"
    for x
    by (simp add: is_high_score_def stored_def Let_def)
  have last9: "last ?l = ?l ! 9" if "length ?l = 10"
  proof -
    from that have "?l \<noteq> []" by auto
    then have "last ?l = ?l ! (length ?l - 1)" by (rule last_conv_nth)
    with that show ?thesis by simp
  qed
  have a: "is_high_score scs d sc \<longleftrightarrow> length ?l < 10 \<or> sc > entry_score (?l ! 9)"
  proof (cases "length ?l < 10")
    case True
    then show ?thesis by (simp add: iff)
  next
    case False
    with assms(1) have len: "length ?l = 10" by simp
    then have "?l \<noteq> []" by auto
    with len show ?thesis by (simp add: iff last9)
  qed
  have b: "entry_score (?l ! 9) = Min (entry_score ` set ?l)
           \<and> \<not> is_high_score scs d (Min (entry_score ` set ?l))" if len: "length ?l = 10"
  proof -
    from len have ne: "?l \<noteq> []" by auto
    with assms(2) have m: "entry_score (last ?l) = Min (entry_score ` set ?l)"
      by (rule sorted_desc_last_Min)
    with len ne show ?thesis by (simp add: last9 iff)
  qed
  from a b show ?thesis by blast
qed

text \<open>Scenario D: the HARD list holds 10 entries with lowest score 100; 100 does not
  qualify and 101 does.\<close>

theorem is_high_score_iff_witness:
  "\<not> is_high_score
       (empty_scores(''HARD'' \<mapsto> entries_of [1000, 900, 800, 700, 600, 500, 400, 300, 200, 100]))
       ''HARD'' 100
   \<and> is_high_score
       (empty_scores(''HARD'' \<mapsto> entries_of [1000, 900, 800, 700, 600, 500, 400, 300, 200, 100]))
       ''HARD'' 101"
proof -
  let ?t = "empty_scores(''HARD'' \<mapsto> entries_of [1000, 900, 800, 700, 600, 500, 400, 300, 200, 100])"
  have st: "stored ?t ''HARD'' = entries_of [1000, 900, 800, 700, 600, 500, 400, 300, 200, 100]"
    by (simp add: stored_def)
  have h: "length (stored ?t ''HARD'') \<le> 10" "sorted_desc (stored ?t ''HARD'')"
    unfolding st by (simp_all add: entries_of_def sorted_desc_def)
  have n9: "entry_score (stored ?t ''HARD'' ! 9) = 100" "length (stored ?t ''HARD'') = 10"
    unfolding st by (simp_all add: entries_of_def)
  from is_high_score_iff [OF h, of 100] is_high_score_iff [OF h, of 101] n9
  show ?thesis by simp
qed

section \<open>Food placement\<close>

lemma respawn_loop_exhausted:
  "(\<forall>i. attempts \<le> i \<and> i < 100 \<longrightarrow> generate_position (rnd i) \<in> set snake_positions) \<Longrightarrow>
     respawn_loop rnd snake_positions attempts pos = pos"
proof (induction rnd snake_positions attempts pos rule: respawn_loop.induct)
  case (1 rnd snake_positions attempts pos)
  show ?case
  proof (cases "attempts < 100")
    case True
    with "1.prems" have occ: "generate_position (rnd attempts) \<in> set snake_positions" by simp
    have "respawn_loop rnd snake_positions (attempts + 1) pos = pos"
      using "1.IH" [OF True refl] occ "1.prems" by simp
    with True occ show ?thesis
      by (subst respawn_loop.simps) simp
  next
    case False
    then show ?thesis by (subst respawn_loop.simps) simp
  qed
qed

lemma respawn_loop_free:
  "\<exists>i. attempts \<le> i \<and> i < 100 \<and> generate_position (rnd i) \<notin> set snake_positions \<Longrightarrow>
     respawn_loop rnd snake_positions attempts pos \<notin> set snake_positions
      \<and> in_grid (respawn_loop rnd snake_positions attempts pos)"
proof (induction rnd snake_positions attempts pos rule: respawn_loop.induct)
  case (1 rnd snake_positions attempts pos)
  from "1.prems" obtain i where i: "attempts \<le> i" "i < 100"
    "generate_position (rnd i) \<notin> set snake_positions" by blast
  then have lt: "attempts < 100" by simp
  show ?case
  proof (cases "generate_position (rnd attempts) \<in> set snake_positions")
    case True
    with i have "attempts \<noteq> i" by auto
    with i have "\<exists>j. attempts + 1 \<le> j \<and> j < 100 \<and> generate_position (rnd j) \<notin> set snake_positions"
      by (intro exI [of _ i]) simp
    with "1.IH" [OF lt refl] True
    have "respawn_loop rnd snake_positions (attempts + 1) pos \<notin> set snake_positions
      \<and> in_grid (respawn_loop rnd snake_positions (attempts + 1) pos)" by simp
    moreover have "respawn_loop rnd snake_positions attempts pos
                 = respawn_loop rnd snake_positions (attempts + 1) pos"
      using lt True by (subst respawn_loop.simps) simp
    ultimately show ?thesis by simp
  next
    case False
    with lt have "respawn_loop rnd snake_positions attempts pos = generate_position (rnd attempts)"
      by (subst respawn_loop.simps) (simp add: Let_def)
    with False show ?thesis by (simp add: generate_position_in_grid)
  qed
qed

text \<open>
  C2 (as the code has it): when all 100 sampled cells are in the occupied set, no
  sample is accepted; the food keeps the position it had before the call.
\<close>

theorem respawn_exhausted_keeps_position:
  assumes "\<forall>i<100. generate_position (rnd i) \<in> set snake_positions"
  shows "respawn f snake_positions rnd = f"
  using assms by (simp add: respawn_def respawn_loop_exhausted)

text \<open>The head has just entered the food cell \<open>(6, 5)\<close>; every sample is the occupied
  cell \<open>(5, 5)\<close>. The food stays on \<open>(6, 5)\<close>.\<close>

theorem respawn_exhausted_keeps_position_witness:
  "respawn \<lparr>position = (6, 5)\<rparr> [(6, 5), (5, 5)] (constant_draws (5, 5)) = \<lparr>position = (6, 5)\<rparr>"
proof -
  have h: "\<forall>i<100. generate_position (constant_draws (5, 5) i) \<in> set [(6, 5), (5, 5)]"
    by (simp add: constant_draws_def generate_position_small)
  from respawn_exhausted_keeps_position [OF h] show ?thesis .
qed

text \<open>The claim as the specification states it, that the last sample becomes the food
  position, fails on that input: the last sample is \<open>(5, 5)\<close>.\<close>

theorem respawn_last_sample_counterexample:
  "generate_position (constant_draws (5, 5) 99) = (5, 5)
   \<and> position (respawn \<lparr>position = (6, 5)\<rparr> [(6, 5), (5, 5)] (constant_draws (5, 5))) = (6, 5)
   \<and> position (respawn \<lparr>position = (6, 5)\<rparr> [(6, 5), (5, 5)] (constant_draws (5, 5)))
       \<noteq> generate_position (constant_draws (5, 5) 99)"
  by (simp add: respawn_def respawn_loop_exhausted constant_draws_def generate_position_small)

section \<open>Food and body\<close>

text \<open>
  C1 (as the code has it): take a snapshot of a game in play in which the food is
  inside the grid and either not on the body, or the body is a single cell with no
  growth pending (as right after a session starts). After the next step the food is
  inside the grid and not on the body, provided that, when the step eats the food, one
  of the 100 samples of the respawn is a cell off the body.
\<close>

theorem food_not_on_body_after_step:
  assumes "state g = PLAYING" and "snake g = Some s" and "food g = Some f"
    and "move s = Inr s1"
    and "in_grid (position f)"
    and "position f \<notin> set (positions s) \<or> (length (positions s) = 1 \<and> \<not> grow_pending s)"
    and "hd (positions s1) = position f \<longrightarrow>
           (\<exists>i<100. generate_position (rnd i) \<notin> set (positions s1))"
  shows "\<exists>g' s' f'. update_game_logic g rnd now = Inr g' \<and> snake g' = Some s'
           \<and> food g' = Some f' \<and> in_grid (position f')
           \<and> position f' \<notin> set (positions s')"
proof -
  from assms(4) have ne: "positions s \<noteq> []"
    by (auto simp: move_def split: list.splits)
  with assms(4) have s1: "s1 = moved s" by (simp add: move_moved)
  note upd = update_game_logic_playing [OF assms(1-3) ne, of rnd now]
  have sub: "set (butlast (positions s)) \<subseteq> set (positions s)"
    by (auto dest: in_set_butlastD)
  have tl_sub: "set (tl (positions (moved s))) \<subseteq> set (positions s)"
    using sub by (auto simp: moved_def)
  have rest: "position f \<notin> set (tl (positions (moved s)))"
  proof (cases "position f \<notin> set (positions s)")
    case True
    with tl_sub show ?thesis by blast
  next
    case False
    with assms(6) have one: "length (positions s) = 1" "\<not> grow_pending s" by auto
    then have "butlast (positions s) = []" by (cases "positions s") auto
    with one show ?thesis by (simp add: moved_def)
  qed
  have body: "set (positions (moved s)) = insert (new_head s) (set (tl (positions (moved s))))"
    by (simp add: moved_def)
  show ?thesis
  proof (cases "collided (moved s)")
    case True
    have "new_head s \<noteq> position f"
    proof
      assume eq: "new_head s = position f"
      from True have "\<not> in_grid (new_head s) \<or> new_head s \<in> set (tl (positions (moved s)))"
        by (simp add: collided_def)
      with eq assms(5) rest show False by auto
    qed
    with rest body have "position f \<notin> set (positions (moved s))" by auto
    with True upd assms(3,5) show ?thesis by simp
  next
    case nc: False
    show ?thesis
    proof (cases "new_head s = position f")
      case True
      with assms(7) s1 have "\<exists>i<100. generate_position (rnd i) \<notin> set (positions (moved s))"
        by simp
      then have "\<exists>i. 0 \<le> i \<and> i < 100 \<and> generate_position (rnd i) \<notin> set (positions (moved s))"
        by auto
      from respawn_loop_free [OF this, of "position f"]
      have "position (respawn f (positions (moved s)) rnd) \<notin> set (positions (moved s))
            \<and> in_grid (position (respawn f (positions (moved s)) rnd))"
        by (simp add: respawn_def)
      with nc True upd show ?thesis by (simp add: eaten_def)
    next
      case False
      with rest body have "position f \<notin> set (positions (moved s))" by auto
      with nc False upd assms(3,5) show ?thesis by simp
    qed
  qed
qed

text \<open>The start of a session in which the food was sampled under the snake: after the
  first step the food at \<open>(17, 13)\<close> is off the body \<open>[(18, 13)]\<close>.\<close>

theorem food_not_on_body_after_step_witness:
  "\<exists>g' s' f'. update_game_logic (start_new_game (SnakeGame_init empty_scores) (17, 13))
                 (constant_draws (0, 0)) ''now'' = Inr g'
     \<and> snake g' = Some s' \<and> food g' = Some f' \<and> in_grid (position f')
     \<and> position f' \<notin> set (positions s')"
proof -
  let ?g = "start_new_game (SnakeGame_init empty_scores) (17, 13)"
  let ?s = "\<lparr>positions = [(17, 13)], direction = (1, 0), grow_pending = False\<rparr>"
  let ?s1 = "\<lparr>positions = [(18, 13)], direction = (1, 0), grow_pending = False\<rparr>"
  let ?f = "\<lparr>position = (17, 13)\<rparr>"
  have h: "state ?g = PLAYING" "snake ?g = Some ?s" "food ?g = Some ?f" "move ?s = Inr ?s1"
    "in_grid (position ?f)"
    "position ?f \<notin> set (positions ?s) \<or> (length (positions ?s) = 1 \<and> \<not> grow_pending ?s)"
    "hd (positions ?s1) = position ?f \<longrightarrow>
       (\<exists>i<100. generate_position (constant_draws (0, 0) i) \<notin> set (positions ?s1))"
    by (simp_all add: start_new_game_def play_sound_def Snake_init_def Food_init_def
        generate_position_small GRID_WIDTH_eq GRID_HEIGHT_eq move_def in_grid_def)
  from food_not_on_body_after_step [OF h, of "''now''"] show ?thesis .
qed

text \<open>The claim as the specification states it fails at both kinds of snapshot. Right
  after a session is created with the sample \<open>(17, 13)\<close> the food is on the only body
  cell. In a step that eats the food at \<open>(6, 5)\<close> while every sample of the respawn is
  the occupied cell \<open>(6, 5)\<close>, the food stays under the head.\<close>

theorem food_on_body_counterexample:
  "snake (start_new_game (SnakeGame_init empty_scores) (17, 13))
     = Some \<lparr>positions = [(17, 13)], direction = (1, 0), grow_pending = False\<rparr>
   \<and> food (start_new_game (SnakeGame_init empty_scores) (17, 13)) = Some \<lparr>position = (17, 13)\<rparr>
   \<and> update_game_logic
        (playing \<lparr>positions = [(5, 5)], direction = (1, 0), grow_pending = False\<rparr>
                 \<lparr>position = (6, 5)\<rparr>) (constant_draws (6, 5)) ''now''
      = Inr ((playing \<lparr>positions = [(6, 5)], direction = (1, 0), grow_pending = True\<rparr>
                      \<lparr>position = (6, 5)\<rparr>)\<lparr>score := 10, play_sound_calls := [''eat'']\<rparr>)"
proof -
  let ?s = "\<lparr>positions = [(5, 5)], direction = (1, 0), grow_pending = False\<rparr>"
  let ?f = "\<lparr>position = (6, 5)\<rparr>"
  have a: "snake (start_new_game (SnakeGame_init empty_scores) (17, 13))
             = Some \<lparr>positions = [(17, 13)], direction = (1, 0), grow_pending = False\<rparr>"
    "food (start_new_game (SnakeGame_init empty_scores) (17, 13)) = Some \<lparr>position = (17, 13)\<rparr>"
    by (simp_all add: start_new_game_def play_sound_def Snake_init_def Food_init_def
        generate_position_small GRID_WIDTH_eq GRID_HEIGHT_eq)
  have h: "state (playing ?s ?f) = PLAYING" "snake (playing ?s ?f) = Some ?s"
    "food (playing ?s ?f) = Some ?f" "positions ?s \<noteq> []"
    by (simp_all add: playing_def)
  have r: "respawn ?f [(6, 5)] (constant_draws (6, 5)) = ?f"
    by (simp add: respawn_def respawn_loop_exhausted constant_draws_def generate_position_small)
  have b: "update_game_logic (playing ?s ?f) (constant_draws (6, 5)) ''now''
      = Inr ((playing \<lparr>positions = [(6, 5)], direction = (1, 0), grow_pending = True\<rparr>
                      \<lparr>position = (6, 5)\<rparr>)\<lparr>score := 10, play_sound_calls := [''eat'']\<rparr>)"
    by (simp add: update_game_logic_playing [OF h] collided_def moved_def new_head_def in_grid_def
        GRID_WIDTH_eq GRID_HEIGHT_eq eaten_def r) (simp add: playing_def SnakeGame_init_def)
  from a b show ?thesis by simp
qed

text \<open>A session starts in a state the step theorem applies to: the food is a sampled
  cell of the grid, chosen without looking at the body, and the body is the single
  start cell with no growth pending. Directional keys before the first step change
  neither the body nor the food.\<close>

lemma new_session_food:
  "food (start_new_game g r) = Some \<lparr>position = generate_position r\<rparr>
   \<and> in_grid (generate_position r)
   \<and> map_option positions (snake (start_new_game g r)) = Some [(17, 13)]
   \<and> map_option grow_pending (snake (start_new_game g r)) = Some False"
  by (simp add: start_new_game_def play_sound_def Food_init_def Snake_init_def
      generate_position_in_grid GRID_WIDTH_eq GRID_HEIGHT_eq)

section \<open>Direction requests within one frame\<close>

text \<open>What the event loop does with the directional keys of one frame: each request
  is applied, in the order received, to the direction stored at that moment.\<close>

lemma change_direction_request:
  "fst (change_direction s nd) = s\<lparr>direction := request (direction s) nd\<rparr>"
  by (simp add: change_direction_def request_def)

lemma handle_keyboard_input_direction:
  assumes "state g = PLAYING" and "snake g = Some s" and "key_direction k = Some nd"
  shows "\<exists>g'. handle_keyboard_input g k r = Inr (True, g') \<and> state g' = PLAYING
           \<and> snake g' = Some (s\<lparr>direction := request (direction s) nd\<rparr>)
           \<and> food g' = food g \<and> score g' = score g"
proof -
  from assms(3) have "handle_keyboard_input g k r = snake_change_direction g nd"
    using assms(1) by (auto simp: handle_keyboard_input_def key_direction_def split: if_splits)
  moreover have "snake_change_direction g nd
      = Inr (True, play_sound (g\<lparr>snake := Some (fst (change_direction s nd))\<rparr>)
                     (snd (change_direction s nd)))"
    using assms(2) by (simp add: snake_change_direction_def split_beta)
  ultimately show ?thesis
    using assms(1) by (simp add: change_direction_request play_sound_def)
qed

lemma handle_events_directions:
  assumes "state g = PLAYING" and "snake g = Some s"
    and "\<forall>k \<in> set ks. key_direction k \<noteq> None"
  shows "\<exists>g'. handle_events g (map KEYDOWN ks) r = Inr (True, g') \<and> state g' = PLAYING
           \<and> snake g' = Some (s\<lparr>direction := foldl request (direction s) (directions_of ks)\<rparr>)
           \<and> food g' = food g \<and> score g' = score g"
  using assms
proof (induction ks arbitrary: g s)
  case Nil
  then show ?case by (simp add: directions_of_def)
next
  case (Cons k ks)
  from Cons.prems(3) obtain nd where nd: "key_direction k = Some nd" by auto
  from handle_keyboard_input_direction [OF Cons.prems(1,2) nd, of r]
  obtain g1 where g1: "handle_keyboard_input g k r = Inr (True, g1)" "state g1 = PLAYING"
    "snake g1 = Some (s\<lparr>direction := request (direction s) nd\<rparr>)"
    "food g1 = food g" "score g1 = score g" by blast
  from Cons.prems(3) have rest: "\<forall>k \<in> set ks. key_direction k \<noteq> None" by simp
  from Cons.IH [OF g1(2,3) rest]
  obtain g' where g': "handle_events g1 (map KEYDOWN ks) r = Inr (True, g')" "state g' = PLAYING"
    "snake g' = Some (s\<lparr>direction := foldl request (request (direction s) nd) (directions_of ks)\<rparr>)"
    "food g' = food g1" "score g' = score g1" by auto
  have "directions_of (k # ks) = nd # directions_of ks"
    by (simp add: directions_of_def nd)
  with g1 g' show ?case by simp
qed

text \<open>
  C3: directional requests received between two steps are to be latched, so that the
  direction of the next step depends only on the direction of the previous step and
  on the last request, and up then left while moving right cannot make the next step
  move left; \<^verbatim>\<open>change_direction\<close> is documented as ``Change direction if valid (no
  reversing)''. The code applies every request when its key is handled and tests it
  against the direction it has already overwritten. On a snake of three cells moving
  right with the head at \<open>(5, 5)\<close>, the keys up and left of one frame both pass the
  test: the step moves the head left onto its own neck \<open>(4, 5)\<close> and the game is over.
  The left key alone is dropped and the step moves the head right to \<open>(6, 5)\<close>.
\<close>

theorem reversal_within_one_frame:
  "(\<exists>g'. frame (playing \<lparr>positions = [(5, 5), (4, 5), (3, 5)], direction = (1, 0),
                          grow_pending = False\<rparr> \<lparr>position = (9, 9)\<rparr>)
            [KEYDOWN K_UP, KEYDOWN K_LEFT] (0, 0) (constant_draws (0, 0)) ''now'' = Inr (True, g')
      \<and> state g' = GAME_OVER
      \<and> snake g' = Some \<lparr>positions = [(4, 5), (5, 5), (4, 5)], direction = (- 1, 0),
                          grow_pending = False\<rparr>)
   \<and> frame (playing \<lparr>positions = [(5, 5), (4, 5), (3, 5)], direction = (1, 0),
                     grow_pending = False\<rparr> \<lparr>position = (9, 9)\<rparr>)
       [KEYDOWN K_LEFT] (0, 0) (constant_draws (0, 0)) ''now''
     = Inr (True, playing \<lparr>positions = [(6, 5), (5, 5), (4, 5)], direction = (1, 0),
                           grow_pending = False\<rparr> \<lparr>position = (9, 9)\<rparr>)"
proof -
  let ?s = "\<lparr>positions = [(5, 5), (4, 5), (3, 5)], direction = (1, 0), grow_pending = False\<rparr>"
  let ?t = "\<lparr>positions = [(5, 5), (4, 5), (3, 5)], direction = (- 1, 0), grow_pending = False\<rparr>"
  let ?f = "\<lparr>position = (9, 9)\<rparr>"
  let ?g1 = "(playing ?t ?f)\<lparr>play_sound_calls := [''turn'', ''turn'']\<rparr>"
  have keys: "handle_events (playing ?s ?f) [KEYDOWN K_UP, KEYDOWN K_LEFT] (0, 0) = Inr (True, ?g1)"
    by (simp add: handle_keyboard_input_def snake_change_direction_def change_direction_def
        play_sound_def playing_def SnakeGame_init_def)
  have h: "state ?g1 = PLAYING" "snake ?g1 = Some ?t" "food ?g1 = Some ?f" "positions ?t \<noteq> []"
    by (simp_all add: playing_def)
  have hit: "collided (moved ?t)"
    by (simp add: collided_def moved_def new_head_def)
  have mv: "moved ?t = \<lparr>positions = [(4, 5), (5, 5), (4, 5)], direction = (- 1, 0),
                          grow_pending = False\<rparr>"
    by (simp add: moved_def new_head_def)
  have a: "\<exists>g'. frame (playing ?s ?f) [KEYDOWN K_UP, KEYDOWN K_LEFT] (0, 0)
                   (constant_draws (0, 0)) ''now'' = Inr (True, g')
      \<and> state g' = GAME_OVER
      \<and> snake g' = Some \<lparr>positions = [(4, 5), (5, 5), (4, 5)], direction = (- 1, 0),
                          grow_pending = False\<rparr>"
  proof -
    have "frame (playing ?s ?f) [KEYDOWN K_UP, KEYDOWN K_LEFT] (0, 0)
            (constant_draws (0, 0)) ''now''
          = (case update_game_logic ?g1 (constant_draws (0, 0)) ''now'' of
               Inl e \<Rightarrow> Inl e | Inr g2 \<Rightarrow> Inr (True, g2))"
      unfolding frame_def keys by simp
    also have "\<dots> = Inr (True, handle_game_over (?g1\<lparr>snake := Some (moved ?t)\<rparr>) ''now'')"
      by (simp only: update_game_logic_playing [OF h] hit if_True sum.case)
    finally show ?thesis by (simp add: mv)
  qed
  have b: "frame (playing ?s ?f) [KEYDOWN K_LEFT] (0, 0) (constant_draws (0, 0)) ''now''
     = Inr (True, playing \<lparr>positions = [(6, 5), (5, 5), (4, 5)], direction = (1, 0),
                           grow_pending = False\<rparr> ?f)"
    by (simp add: frame_def handle_keyboard_input_def snake_change_direction_def
        change_direction_def play_sound_def update_game_logic_def move_def check_collision_def
        playing_def SnakeGame_init_def GRID_WIDTH_eq GRID_HEIGHT_eq)
  from a b show ?thesis by simp
qed

section \<open>Adding a score\<close>

lemma sorted_desc_sort_reverse: "sorted_desc (sort_reverse xs)"
proof -
  have "sorted (map (\<lambda>x. - entry_score x) (sort_key (\<lambda>x. - entry_score x) xs))"
    by (rule sorted_sort_key)
  then show ?thesis
    by (simp add: sorted_desc_def sort_reverse_def sorted_map)
qed

lemma sorted_desc_take: "sorted_desc l \<Longrightarrow> sorted_desc (take n l)"
  by (simp add: sorted_desc_def)

lemma sort_reverse_stable:
  "filter (\<lambda>x. entry_score x = v) (sort_reverse xs) = filter (\<lambda>x. entry_score x = v) xs"
proof -
  have "filter (\<lambda>y. - entry_score y = - v) (sort_key (\<lambda>x. - entry_score x) xs)
          = filter (\<lambda>y. - entry_score y = - v) xs"
    by (rule sort_key_stable)
  then show ?thesis by (simp add: sort_reverse_def)
qed

text \<open>Appending to a list that is in descending order and sorting again puts the new
  entry behind every entry with a score at least as high, and before the others.\<close>

lemma insert_into_sorted:
  "sorted (map f xs) \<Longrightarrow>
     foldr (insort_key f) xs [x]
       = filter (\<lambda>y. f y \<le> f x) xs @ [x] @ filter (\<lambda>y. \<not> f y \<le> f x) xs"
proof (induction xs)
  case Nil
  then show ?case by simp
next
  case (Cons a xs)
  from Cons.prems have sorted_xs: "sorted (map f xs)" and le: "\<forall>y \<in> set xs. f a \<le> f y"
    by auto
  note IH = Cons.IH [OF sorted_xs]
  show ?case
  proof (cases "f a \<le> f x")
    case True
    let ?r = "filter (\<lambda>y. f y \<le> f x) xs @ [x] @ filter (\<lambda>y. \<not> f y \<le> f x) xs"
    have "\<forall>y \<in> set ?r. f a \<le> f y" using le True by auto
    then have "insort_key f a ?r = a # ?r" by (rule insort_is_Cons)
    with IH True show ?thesis by simp
  next
    case False
    with le have all: "\<forall>y \<in> set xs. \<not> f y \<le> f x" by auto
    then have "filter (\<lambda>y. f y \<le> f x) xs = []" "filter (\<lambda>y. \<not> f y \<le> f x) xs = xs"
      by (simp_all add: filter_empty_conv)
    with IH have r: "foldr (insort_key f) xs [x] = x # xs" by simp
    from le have "insort_key f a xs = a # xs" by (rule insort_is_Cons)
    with r False all show ?thesis by simp
  qed
qed

lemma sort_reverse_append_sorted:
  assumes "sorted_desc l"
  shows "sort_reverse (l @ [e])
           = filter (\<lambda>x. entry_score x \<ge> entry_score e) l @ [e]
             @ filter (\<lambda>x. entry_score x < entry_score e) l"
proof -
  from assms have "sorted (map (\<lambda>x. - entry_score x) l)"
    by (simp add: sorted_desc_def sorted_map)
  from insert_into_sorted [OF this, of e] show ?thesis
    by (simp add: sort_reverse_def sort_key_def not_le)
qed

lemma rank_loop_takeWhile:
  "rank_loop l e i
     = (if e \<in> set l then Some (i + 1 + length (takeWhile (\<lambda>x. x \<noteq> e) l)) else None)"
  by (induction l arbitrary: i) auto

lemma add_score_stored:
  "stored (fst (add_score scs d sc pl now)) d
     = take 10 (sort_reverse (stored scs d @ [\<lparr>entry_score = sc, player = pl, date = now\<rparr>]))"
  by (auto simp: add_score_def stored_def Let_def split: option.splits)

lemma add_score_other:
  "d' \<noteq> d \<Longrightarrow> stored (fst (add_score scs d sc pl now)) d' = stored scs d'"
  by (simp add: add_score_def stored_def Let_def)

lemma add_score_rank:
  "snd (add_score scs d sc pl now)
     = (let e = \<lparr>entry_score = sc, player = pl, date = now\<rparr>;
            l' = stored (fst (add_score scs d sc pl now)) d
        in if e \<in> set l' then length (takeWhile (\<lambda>x. x \<noteq> e) l') + 1 else length l')"
proof -
  let ?e = "\<lparr>entry_score = sc, player = pl, date = now\<rparr>"
  let ?k = "take 10 (sort_reverse (stored scs d @ [?e]))"
  have "snd (add_score scs d sc pl now)
          = (case rank_loop ?k ?e 0 of Some r \<Rightarrow> r | None \<Rightarrow> length ?k)"
    by (auto simp: add_score_def stored_def Let_def split: option.splits)
  then show ?thesis
    by (simp add: add_score_stored rank_loop_takeWhile Let_def)
qed

text \<open>
  C4 (as the code has it): \<open>add_score\<close> appends the new entry to the stored list, sorts
  the list in descending order of score with a stable sort (entries of equal score keep
  their order, so on a list that was in descending order the new entry comes behind
  all entries with a score at least as high) and keeps the first 10 entries. The stored
  list then has at most 10 entries and is in descending order, the lists of the other
  difficulties are unchanged, and so a table whose lists all satisfy both conditions
  stays such a table. The returned rank is the 1-based position of the first entry of
  the kept list that equals the new entry, and the length of the kept list when no
  entry of it equals the new one. When the list was in descending order, held no
  entry equal to the new one and the new entry is kept, the rank is the new entry's
  own position.
\<close>

theorem add_score_result:
  fixes scs :: scores and d :: string and sc :: int and pl :: string and now :: string
  defines "e \<equiv> \<lparr>entry_score = sc, player = pl, date = now\<rparr>"
    and "l \<equiv> stored scs d"
    and "l' \<equiv> stored (fst (add_score scs d sc pl now)) d"
    and "rank \<equiv> snd (add_score scs d sc pl now)"
  shows "l' = take 10 (sort_reverse (l @ [e]))
     \<and> length l' \<le> 10 \<and> sorted_desc l'
     \<and> (\<forall>v. filter (\<lambda>x. entry_score x = v) (sort_reverse (l @ [e]))
              = filter (\<lambda>x. entry_score x = v) l @ (if v = sc then [e] else []))
     \<and> (sorted_desc l \<longrightarrow>
          sort_reverse (l @ [e])
            = filter (\<lambda>x. entry_score x \<ge> sc) l @ [e] @ filter (\<lambda>x. entry_score x < sc) l)
     \<and> (\<forall>d'. d' \<noteq> d \<longrightarrow> stored (fst (add_score scs d sc pl now)) d' = stored scs d')
     \<and> ((\<forall>d'. length (stored scs d') \<le> 10 \<and> sorted_desc (stored scs d')) \<longrightarrow>
          (\<forall>d'. length (stored (fst (add_score scs d sc pl now)) d') \<le> 10
                \<and> sorted_desc (stored (fst (add_score scs d sc pl now)) d')))
     \<and> rank = (if e \<in> set l' then length (takeWhile (\<lambda>x. x \<noteq> e) l') + 1 else length l')
     \<and> (sorted_desc l \<and> e \<notin> set l \<and> e \<in> set l' \<longrightarrow>
          rank = length (filter (\<lambda>x. entry_score x \<ge> sc) l) + 1 \<and> l' ! (rank - 1) = e)"
proof -
  have st: "l' = take 10 (sort_reverse (l @ [e]))"
    by (simp add: l'_def l_def e_def add_score_stored)
  have len: "length l' \<le> 10" by (simp add: st)
  have srt: "sorted_desc l'"
    by (simp add: st sorted_desc_take sorted_desc_sort_reverse)
  have stable: "filter (\<lambda>x. entry_score x = v) (sort_reverse (l @ [e]))
              = filter (\<lambda>x. entry_score x = v) l @ (if v = sc then [e] else [])" for v
    by (auto simp: sort_reverse_stable e_def)
  have place: "sort_reverse (l @ [e])
            = filter (\<lambda>x. entry_score x \<ge> sc) l @ [e] @ filter (\<lambda>x. entry_score x < sc) l"
    if "sorted_desc l"
    using sort_reverse_append_sorted [OF that, of e] by (simp add: e_def)
  have other: "stored (fst (add_score scs d sc pl now)) d' = stored scs d'" if "d' \<noteq> d" for d'
    using that by (rule add_score_other)
  have inv: "length (stored (fst (add_score scs d sc pl now)) d') \<le> 10
                \<and> sorted_desc (stored (fst (add_score scs d sc pl now)) d')"
    if "\<forall>d'. length (stored scs d') \<le> 10 \<and> sorted_desc (stored scs d')" for d'
  proof (cases "d' = d")
    case True
    with len srt show ?thesis by (simp add: l'_def)
  next
    case False
    with that show ?thesis by (simp add: add_score_other)
  qed
  have rk: "rank = (if e \<in> set l' then length (takeWhile (\<lambda>x. x \<noteq> e) l') + 1 else length l')"
    by (simp add: rank_def l'_def e_def add_score_rank [of scs d sc pl now] Let_def)
  have own: "rank = length (filter (\<lambda>x. entry_score x \<ge> sc) l) + 1 \<and> l' ! (rank - 1) = e"
    if s: "sorted_desc l" and fresh: "e \<notin> set l" and kept: "e \<in> set l'"
  proof -
    let ?A = "filter (\<lambda>x. entry_score x \<ge> sc) l"
    let ?B = "filter (\<lambda>x. entry_score x < sc) l"
    from st place [OF s] have l'_eq: "l' = take 10 (?A @ e # ?B)" by simp
    from fresh have notA: "e \<notin> set ?A" and notB: "e \<notin> set ?B" by auto
    have short: "length ?A < 10"
    proof (rule ccontr)
      assume "\<not> length ?A < 10"
      then have "l' = take 10 ?A" by (simp add: l'_eq)
      with kept have "e \<in> set ?A" by (auto dest: in_set_takeD)
      with notA show False by simp
    qed
    then have l'_split: "l' = ?A @ e # take (10 - length ?A - 1) ?B"
      by (simp add: l'_eq take_Cons')
    have "takeWhile (\<lambda>x. x \<noteq> e) (?A @ e # take (10 - length ?A - 1) ?B)
            = takeWhile (\<lambda>x. x \<noteq> e) ?A"
      by (rule takeWhile_tail) simp
    moreover from notA have "\<forall>x \<in> set ?A. x \<noteq> e" by blast
    then have "takeWhile (\<lambda>x. x \<noteq> e) ?A = ?A" by (simp only: takeWhile_eq_all_conv)
    ultimately have "takeWhile (\<lambda>x. x \<noteq> e) l' = ?A"
      using l'_split by simp
    with rk kept have r: "rank = length ?A + 1" by simp
    have "l' ! length ?A = e" by (subst l'_split) simp
    with r show ?thesis by simp
  qed
  from st len srt stable place other inv rk own show ?thesis by blast
qed

text \<open>Scenario E: adding 50, 30, 80 and 10 to the empty EASY list stores them in the
  order 80, 50, 30, 10, and adding the 80 returns rank 1.\<close>

theorem add_score_result_witness:
  "stored (add_all empty_scores ''EASY'' [50, 30, 80, 10]) ''EASY'' = entries_of [80, 50, 30, 10]
   \<and> snd (add_score (add_all empty_scores ''EASY'' [50, 30]) ''EASY'' 80 ''P'' ''2024-01-01 12:00'') = 1"
proof -
  let ?now = "''2024-01-01 12:00''"
  let ?t2 = "add_all empty_scores ''EASY'' [50, 30]"
  let ?t3 = "add_all empty_scores ''EASY'' [50, 30, 80]"
  have e0: "stored empty_scores ''EASY'' = []"
    by (simp add: stored_def empty_scores_def)
  have l2: "stored ?t2 ''EASY'' = entries_of [50, 30]"
    by (simp add: add_all_def add_score_stored e0 sort_reverse_def entries_of_def)
  have t3: "?t3 = fst (add_score ?t2 ''EASY'' 80 ''P'' ?now)"
    by (simp add: add_all_def)
  have t4: "add_all empty_scores ''EASY'' [50, 30, 80, 10] = fst (add_score ?t3 ''EASY'' 10 ''P'' ?now)"
    by (simp add: add_all_def)
  note r3 = add_score_result [of ?t2 "''EASY''" 80 "''P''" ?now]
  from r3 have l3: "stored ?t3 ''EASY'' = entries_of [80, 50, 30]"
    unfolding t3 l2 by (simp add: sort_reverse_def entries_of_def)
  have pre: "sorted_desc (stored ?t2 ''EASY'')"
    "\<lparr>entry_score = 80, player = ''P'', date = ?now\<rparr> \<notin> set (stored ?t2 ''EASY'')"
    "\<lparr>entry_score = 80, player = ''P'', date = ?now\<rparr>
       \<in> set (stored (fst (add_score ?t2 ''EASY'' 80 ''P'' ?now)) ''EASY'')"
    using l3 unfolding t3 l2 by (simp_all add: sorted_desc_def entries_of_def)
  with r3 have "snd (add_score ?t2 ''EASY'' 80 ''P'' ?now)
      = length (filter (\<lambda>x. entry_score x \<ge> 80) (stored ?t2 ''EASY'')) + 1"
    by blast
  then have rank: "snd (add_score ?t2 ''EASY'' 80 ''P'' ?now) = 1"
    unfolding l2 by (simp add: entries_of_def)
  from add_score_result [of ?t3 "''EASY''" 10 "''P''" ?now]
  have "stored (add_all empty_scores ''EASY'' [50, 30, 80, 10]) ''EASY'' = entries_of [80, 50, 30, 10]"
    unfolding t4 l3 by (simp add: sort_reverse_def entries_of_def)
  with rank show ?thesis by simp
qed

text \<open>The claim as the specification states it, that the rank returned is the position
  of the inserted entry, fails in two ways. When an equal entry (same score, player and
  minute) is already stored, the new entry is placed second and the rank returned is
  1. When the list is full and the new score is below all stored ones, the new entry
  is cut off and the rank returned is 10, the position of another entry.\<close>

theorem add_score_rank_counterexample:
  "stored (fst (add_score (empty_scores(''EASY'' \<mapsto> entries_of [0])) ''EASY'' 0 ''P''
                  ''2024-01-01 12:00'')) ''EASY'' = entries_of [0, 0]
   \<and> snd (add_score (empty_scores(''EASY'' \<mapsto> entries_of [0])) ''EASY'' 0 ''P''
             ''2024-01-01 12:00'') = 1
   \<and> stored (fst (add_score
                    (empty_scores(''HARD'' \<mapsto>
                       entries_of [1000, 900, 800, 700, 600, 500, 400, 300, 200, 100]))
                    ''HARD'' 50 ''P'' ''2024-01-01 12:00'')) ''HARD''
       = entries_of [1000, 900, 800, 700, 600, 500, 400, 300, 200, 100]
   \<and> snd (add_score
            (empty_scores(''HARD'' \<mapsto>
               entries_of [1000, 900, 800, 700, 600, 500, 400, 300, 200, 100]))
            ''HARD'' 50 ''P'' ''2024-01-01 12:00'') = 10"
proof -
  let ?now = "''2024-01-01 12:00''"
  let ?a = "empty_scores(''EASY'' \<mapsto> entries_of [0])"
  let ?b = "empty_scores(''HARD'' \<mapsto> entries_of [1000, 900, 800, 700, 600, 500, 400, 300, 200, 100])"
  have sa: "stored ?a ''EASY'' = entries_of [0]" by (simp add: stored_def)
  have sb: "stored ?b ''HARD'' = entries_of [1000, 900, 800, 700, 600, 500, 400, 300, 200, 100]"
    by (simp add: stored_def)
  have la: "stored (fst (add_score ?a ''EASY'' 0 ''P'' ?now)) ''EASY'' = entries_of [0, 0]"
    unfolding add_score_stored sa by (simp add: sort_reverse_def entries_of_def)
  have lb: "stored (fst (add_score ?b ''HARD'' 50 ''P'' ?now)) ''HARD''
              = entries_of [1000, 900, 800, 700, 600, 500, 400, 300, 200, 100]"
    unfolding add_score_stored sb by (simp add: sort_reverse_def entries_of_def)
  have ra: "snd (add_score ?a ''EASY'' 0 ''P'' ?now) = 1"
    unfolding add_score_rank la Let_def by (simp add: entries_of_def)
  have rb: "snd (add_score ?b ''HARD'' 50 ''P'' ?now) = 10"
    unfolding add_score_rank lb Let_def by (simp add: entries_of_def)
  from la ra lb rb show ?thesis by simp
qed

end
